theory Spec2Isabelle
  imports Complex_Main
begin

section \<open>BLEU scorer of \<open>src/eval/bleu.py\<close>\<close>

text \<open>
  The embedding follows the three static methods of class \<open>BLEU\<close>.
  Python floats are idealised as the reals of HOL (rounding, underflow and
  overflow of IEEE doubles are outside the model); Python integers are
  \<open>nat\<close> where they are lengths and counts and \<open>int\<close> for the
  length differences. The order \<open>n\<close> of an n-gram is a \<open>nat\<close>:
  \<open>compute\<close> counts it from 1. A token is a \<open>string\<close> of 8-bit
  characters, and \<open>str.lower\<close> and \<open>str.upper\<close> map the ASCII letters
  only; the special casing of Unicode is outside the model.
  Every exception the three methods can raise is a constructor of
  \<open>py_error\<close>, and a method returns \<open>py_error + real\<close>.
\<close>

subsection \<open>Exceptions\<close>

datatype py_error = ZeroDivisionError | ValueError | NameError

subsection \<open>Case mapping of tokens\<close>

definition lower_char :: "char \<Rightarrow> char" where
  "lower_char ch =
     (let k = (of_char ch :: nat)
      in if 65 \<le> k \<and> k \<le> 90 then char_of (k + 32) else ch)"


definition lower :: "string \<Rightarrow> string" where
  "lower tok = map lower_char tok"


subsection \<open>N-gram extraction\<close>

text \<open>
  Modelled from the spec: \<open>ngrams\<close> is imported from \<open>nltk.util\<close> and is
  not part of the sources. Section 4.1 of the specification: for a sequence
  of length \<open>L\<close> and an order \<open>n\<close>, the windows of \<open>n\<close> tokens starting at
  the positions \<open>0..L-n\<close>, in order and with duplicates; the empty list if
  \<open>L < n\<close>.
\<close>

definition ngrams :: "'a list \<Rightarrow> nat \<Rightarrow> 'a list list" where
  "ngrams xs n = map (\<lambda>i. take n (drop i xs)) [0 ..< length xs + 1 - n]"

subsection \<open>Iteration over a Python set\<close>

text \<open>
  \<open>for word in c_words\<close> visits the elements of \<open>set(candidate_ngrams)\<close>
  in an order that the language leaves to the hash table. The model takes
  that order as a parameter \<open>it\<close>: the list of the elements visited, given
  the list the set was built from. \<open>set_order it\<close> says that \<open>it\<close> behaves
  as a set iteration: every distinct element is visited exactly once.
\<close>

type_synonym 'a set_iter = "'a list \<Rightarrow> 'a list"

definition enumerates :: "'a list \<Rightarrow> 'a list \<Rightarrow> bool" where
  "enumerates ws xs \<longleftrightarrow> distinct ws \<and> set ws = set xs"


subsection \<open>\<open>BLEU.modified_precision\<close>\<close>

text \<open>The inner loop \<open>for reference in references\<close>, carrying \<open>count_max\<close>.\<close>

fun reference_loop :: "'a list \<Rightarrow> 'a list list \<Rightarrow> nat \<Rightarrow> nat \<Rightarrow> nat" where
  "reference_loop word [] n count_max = count_max"
| "reference_loop word (reference # references) n count_max =
     (let reference_ngrams = ngrams reference n;
          count = count_list reference_ngrams word + 1
      in reference_loop word references n
           (if count > count_max then count else count_max))"

text \<open>
  The outer loop \<open>for word in c_words\<close>. Its state is the pair of local
  variables \<open>(count_w, count_max)\<close>, unbound (\<open>None\<close>) before the first
  pass; every pass assigns both afresh.
\<close>

fun word_loop ::
  "'a list list \<Rightarrow> 'a list list \<Rightarrow> nat \<Rightarrow> 'a list list \<Rightarrow> (nat \<times> nat) option
     \<Rightarrow> (nat \<times> nat) option" where
  "word_loop candidate_ngrams references n [] st = st"
| "word_loop candidate_ngrams references n (word # c_words) st =
     (let count_w = count_list candidate_ngrams word + 1;
          count_max = reference_loop word references n 0
      in word_loop candidate_ngrams references n c_words (Some (count_w, count_max)))"

definition true_div :: "nat \<Rightarrow> nat \<Rightarrow> py_error + real" where
  "true_div a b = (if b = 0 then Inl ZeroDivisionError else Inr (real a / real b))"

definition modified_precision ::
  "'a list set_iter \<Rightarrow> 'a list \<Rightarrow> 'a list list \<Rightarrow> nat \<Rightarrow> py_error + real" where
  "modified_precision it candidate references n =
     (let candidate_ngrams = ngrams candidate n
      in if length candidate_ngrams = 0 then Inr 0
         else
           (let c_words = it candidate_ngrams
            in case word_loop candidate_ngrams references n c_words None of
                 None \<Rightarrow> Inl NameError
               | Some (count_w, count_max) \<Rightarrow>
                   true_div (min count_w count_max) (length candidate + length c_words)))"

subsection \<open>\<open>BLEU.brevity_penalty\<close>\<close>

fun py_min :: "int list \<Rightarrow> py_error + int" where
  "py_min [] = Inl ValueError"
| "py_min (x # xs) = Inr (fold min xs x)"

definition brevity_penalty :: "'a list \<Rightarrow> 'a list list \<Rightarrow> py_error + real" where
  "brevity_penalty candidate references =
     (let c = int (length candidate);
          lengthes_ref = map (\<lambda>x. \<bar>int (length x) - c\<bar>) references
      in case py_min lengthes_ref of
           Inl e \<Rightarrow> Inl e
         | Inr r \<Rightarrow>
             if c > r then Inr 1
             else if c = 0 then Inl ZeroDivisionError
             else Inr (exp (1 - real_of_int r / real_of_int c)))"

subsection \<open>\<open>BLEU.compute\<close>\<close>

definition math_log :: "real \<Rightarrow> py_error + real" where
  "math_log x = (if x \<le> 0 then Inl ValueError else Inr (ln x))"

text \<open>
  The loop \<open>for weight in weights\<close> with its accumulator \<open>s\<close> and its
  counter \<open>i\<close>; an exception of a callee ends it.
\<close>

fun weight_loop ::
  "string list set_iter \<Rightarrow> string list \<Rightarrow> string list list \<Rightarrow> real list \<Rightarrow> real \<Rightarrow> nat
     \<Rightarrow> py_error + real" where
  "weight_loop it candidate references [] s i = Inr s"
| "weight_loop it candidate references (weight # weights) s i =
     (case modified_precision it candidate references i of
        Inl e \<Rightarrow> Inl e
      | Inr p_n \<Rightarrow>
          if p_n \<noteq> 0 then
            (case math_log p_n of
               Inl e \<Rightarrow> Inl e
             | Inr l \<Rightarrow> weight_loop it candidate references weights (s + weight * l) (i + 1))
          else weight_loop it candidate references weights s (i + 1))"

definition compute ::
  "string list set_iter \<Rightarrow> string list \<Rightarrow> string list list \<Rightarrow> real list \<Rightarrow> py_error + real" where
  "compute it candidate references weights =
     (let candidate' = map lower candidate;
          references' = map (map lower) references
      in case brevity_penalty candidate' references' of
           Inl e \<Rightarrow> Inl e
         | Inr bp \<Rightarrow>
             (case weight_loop it candidate' references' weights 0 1 of
                Inl e \<Rightarrow> Inl e
              | Inr s \<Rightarrow> Inr (bp * exp s)))"

section \<open>Properties\<close>

subsection \<open>Helper lemmas\<close>

lemma py_min_Min:
  "xs \<noteq> [] \<Longrightarrow> py_min xs = Inr (Min (set xs))"
proof (cases xs)
  case Nil
  assume "xs \<noteq> []"
  with Nil show ?thesis by simp
next
  case (Cons x ys)
  have "fold min ys x = Min (set (x # ys))"
    by (rule Min.set_eq_fold [symmetric])
  with Cons show ?thesis by simp
qed

lemma py_min_map_Min:
  "xs \<noteq> [] \<Longrightarrow> py_min (map f xs) = Inr (Min (f ` set xs))"
  using py_min_Min [of "map f xs"] by simp

lemma length_ngrams: "length (ngrams xs n) = length xs + 1 - n"
  by (simp add: ngrams_def)

lemma Max_insert_max:
  fixes a m :: nat
  assumes "finite A"
  shows "Max (insert (max a m) A) = max a (Max (insert m A))"
proof (cases "A = {}")
  case True
  then show ?thesis by simp
next
  case False
  with assms show ?thesis by (simp add: max.assoc)
qed

lemma reference_loop_Max:
  "reference_loop word references n m =
     Max (insert m ((\<lambda>r. count_list (ngrams r n) word + 1) ` set references))"
proof (induction references arbitrary: m)
  case Nil
  show ?case by simp
next
  case (Cons r rs)
  let ?f = "\<lambda>r. count_list (ngrams r n) word + 1"
  have step: "reference_loop word (r # rs) n m = reference_loop word rs n (max (?f r) m)"
    by (simp add: Let_def max_def)
  have "Max (insert (max (?f r) m) (?f ` set rs)) = max (?f r) (Max (insert m (?f ` set rs)))"
    by (rule Max_insert_max) simp
  also have "\<dots> = Max (insert (?f r) (insert m (?f ` set rs)))"
    by simp
  also have "\<dots> = Max (insert m (?f ` set (r # rs)))"
    by (simp add: insert_commute)
  finally show ?case using Cons.IH [of "max (?f r) m"] step by simp
qed

lemma reference_loop_nonempty:
  assumes "references \<noteq> []"
  shows "reference_loop word references n 0 =
     Max ((\<lambda>r. count_list (ngrams r n) word + 1) ` set references)"
proof -
  let ?A = "(\<lambda>r. count_list (ngrams r n) word + 1) ` set references"
  from assms have "finite ?A" "?A \<noteq> {}" by simp_all
  then have "Max (insert 0 ?A) = Max ?A" by simp
  then show ?thesis by (simp only: reference_loop_Max)
qed

lemma word_loop_last:
  "c_words \<noteq> [] \<Longrightarrow>
   word_loop cn references n c_words st =
     Some (count_list cn (last c_words) + 1, reference_loop (last c_words) references n 0)"
  by (induction c_words arbitrary: st) (auto simp: Let_def)

lemma enumerates_length: "enumerates ws xs \<Longrightarrow> length ws = card (set xs)"
  by (metis enumerates_def distinct_card)

lemma enumerates_nonempty: "enumerates ws xs \<Longrightarrow> xs \<noteq> [] \<Longrightarrow> ws \<noteq> []"
  by (auto simp: enumerates_def)

lemma enumerates_last: "enumerates ws xs \<Longrightarrow> xs \<noteq> [] \<Longrightarrow> last ws \<in> set xs"
  using enumerates_nonempty [of ws xs] last_in_set [of ws] by (auto simp: enumerates_def)

lemma ngrams_empty_iff: "ngrams xs n = [] \<longleftrightarrow> length xs < n"
  by (auto simp: ngrams_def)

lemma ngrams_Nil: "ngrams [] n = (if n = 0 then [[]] else [])"
  by (simp add: ngrams_def)

lemma ngrams_Cons:
  assumes "0 < n"
  shows "ngrams (x # xs) n =
           (if n \<le> Suc (length xs) then take n (x # xs) # ngrams xs n else [])"
proof (cases "n \<le> Suc (length xs)")
  case False
  then show ?thesis by (simp add: ngrams_def)
next
  case True
  with assms have "[0 ..< length (x # xs) + 1 - n] = 0 # map Suc [0 ..< length xs + 1 - n]"
    by (simp add: upt_conv_Cons map_Suc_upt Suc_diff_le)
  with True show ?thesis by (simp add: ngrams_def comp_def)
qed

lemma modified_precision_last:
  assumes en: "enumerates (it (ngrams candidate n)) (ngrams candidate n)"
    and ne: "ngrams candidate n \<noteq> []"
  shows "modified_precision it candidate references n =
           Inr (real (min (count_list (ngrams candidate n) (last (it (ngrams candidate n))) + 1)
                          (reference_loop (last (it (ngrams candidate n))) references n 0))
                / real (length candidate + card (set (ngrams candidate n))))"
proof -
  let ?cn = "ngrams candidate n"
  from en ne have ws: "it ?cn \<noteq> []" by (rule enumerates_nonempty)
  from en have len: "length (it ?cn) = card (set ?cn)" by (rule enumerates_length)
  from ne have "card (set ?cn) \<noteq> 0" by simp
  with ne ws len show ?thesis
    by (simp add: modified_precision_def Let_def word_loop_last [OF ws] true_div_def)
qed







lemma reference_loop_ge_1:
  assumes "references \<noteq> []"
  shows "1 \<le> reference_loop word references n 0"
proof -
  let ?f = "\<lambda>r. count_list (ngrams r n) word + 1"
  from assms have "?f (hd references) \<in> ?f ` set references" by simp
  then have "?f (hd references) \<le> Max (?f ` set references)" by (intro Max_ge) simp_all
  then show ?thesis by (simp add: reference_loop_nonempty [OF assms])
qed

lemma count_list_ge_1: "x \<in> set xs \<Longrightarrow> 1 \<le> count_list xs x"
  using count_list_0_iff [of xs x] by (cases "count_list xs x") auto









subsection \<open>Failure on empty references\<close>

text \<open>
  C10: whatever the candidate, \<open>brevity_penalty\<close> with an empty collection
  of references raises (the \<open>min\<close> of an empty collection is a
  \<open>ValueError\<close>) instead of returning a value, and so does \<open>compute\<close>.
\<close>

theorem empty_references_fail:
  "brevity_penalty candidate [] = Inl ValueError
   \<and> compute it candidate [] weights = Inl ValueError"
  by (simp add: brevity_penalty_def compute_def)

subsection \<open>Failure on an empty candidate\<close>

text \<open>
  C5: with at least one reference, \<open>brevity_penalty\<close> on an empty
  candidate raises \<open>ZeroDivisionError\<close> (the candidate length 0 is not
  greater than the closest distance, and \<open>r/c\<close> divides by it); so does
  \<open>compute\<close>, which calls it before any precision is computed. No number,
  in particular no infinity and no partial score, is returned.
\<close>

theorem empty_candidate_fails:
  "references \<noteq> [] \<Longrightarrow>
   brevity_penalty [] references = Inl ZeroDivisionError
   \<and> compute it [] references weights = Inl ZeroDivisionError"
proof -
  assume ne: "references \<noteq> []"
  have bp: "brevity_penalty ([] :: 'b list) rs = Inl ZeroDivisionError" if "rs \<noteq> []" for rs :: "'b list list"
  proof -
    let ?S = "(\<lambda>x. \<bar>int (length x) - int (length ([] :: 'b list))\<bar>) ` set rs"
    from that have "Min ?S \<in> ?S" by (intro Min_in) simp_all
    then have "0 \<le> Min ?S" by auto
    then have "\<not> int (length ([] :: 'b list)) > Min ?S" by simp
    then show ?thesis using that
      by (simp add: brevity_penalty_def py_min_map_Min del: abs_of_nat)
  qed
  from ne have "map (map lower) references \<noteq> []" by simp
  then show ?thesis using bp [OF ne] bp [of "map (map lower) references"]
    by (simp add: compute_def)
qed

theorem empty_candidate_fails_witness:
  "[[''a'']] \<noteq> []
   \<and> brevity_penalty [] [[''a'']] = Inl ZeroDivisionError
   \<and> compute remdups [] [[''a'']] [1] = Inl ZeroDivisionError"
  using empty_candidate_fails [of "[[''a'']]" remdups "[1]"] by simp

subsection \<open>The value of \<open>brevity_penalty\<close>\<close>



subsection \<open>The value of \<open>modified_precision\<close>\<close>

text \<open>
  C8: for an order \<open>n \<ge> 1\<close> and a candidate of fewer than \<open>n\<close> tokens,
  \<open>modified_precision\<close> returns exactly 0 and raises nothing.
\<close>

theorem short_candidate_zero:
  "1 \<le> n \<Longrightarrow> length candidate < n \<Longrightarrow> modified_precision it candidate references n = Inr 0"
  by (simp add: modified_precision_def ngrams_empty_iff)

theorem short_candidate_zero_witness:
  "(1::nat) \<le> 2 \<and> length [''a''] < (2::nat)
   \<and> modified_precision remdups [''a''] [[''a'', ''b'']] 2 = Inr 0"
  using short_candidate_zero [of 2 "[''a'']" remdups "[[''a'', ''b'']]"] by simp

text \<open>
  C1: for a candidate of at least \<open>n\<close> tokens (\<open>n \<ge> 1\<close>) and at least one
  reference, \<open>modified_precision\<close> returns
  \<open>min (count w + 1) (max over the references of (count of w in the reference's
  n-grams) + 1) / (len(candidate) + D)\<close>, where \<open>D\<close> is the number of distinct
  candidate n-grams and \<open>w\<close> is the last n-gram visited by the iteration over the
  set of distinct candidate n-grams. Only \<open>w\<close> enters the numerator: nothing is
  summed over the other distinct n-grams.
\<close>

theorem modified_precision_formula:
  assumes "1 \<le> n" and "n \<le> length candidate" and "references \<noteq> []"
    and "enumerates (it (ngrams candidate n)) (ngrams candidate n)"
  shows "let cn = ngrams candidate n; w = last (it cn); D = card (set cn)
         in modified_precision it candidate references n =
              Inr (real (min (count_list cn w + 1)
                             (Max ((\<lambda>r. count_list (ngrams r n) w + 1) ` set references)))
                   / real (length candidate + D))"
proof -
  from assms(2) have "ngrams candidate n \<noteq> []" by (simp add: ngrams_empty_iff)
  with assms(4) show ?thesis
    by (simp add: Let_def modified_precision_last reference_loop_nonempty [OF assms(3)])
qed

theorem modified_precision_formula_witness:
  "1 \<le> (1::nat) \<and> (1::nat) \<le> length [''b'', ''a'', ''b'']
   \<and> [[''b'', ''c'']] \<noteq> []
   \<and> enumerates (remdups (ngrams [''b'', ''a'', ''b''] 1)) (ngrams [''b'', ''a'', ''b''] 1)
   \<and> modified_precision remdups [''b'', ''a'', ''b''] [[''b'', ''c'']] 1 = Inr (2 / 5)"
proof -
  have en: "enumerates (remdups (ngrams [''b'', ''a'', ''b''] 1)) (ngrams [''b'', ''a'', ''b''] 1)"
    by (simp add: enumerates_def)
  show ?thesis
    using modified_precision_formula [of 1 "[''b'', ''a'', ''b'']" "[[''b'', ''c'']]" remdups] en
    by (simp add: ngrams_Nil ngrams_Cons Let_def card_insert_if)
qed

text \<open>
  C9: for a candidate of at least \<open>n\<close> tokens (\<open>n \<ge> 1\<close>) and at least one
  reference, the precision returned is \<open>p\<close> with \<open>0 < p \<le> 1\<close>: the numerator
  \<open>min count_w count_max\<close> has \<open>count_w \<ge> 2\<close> and \<open>count_max \<ge> 1\<close>, so it is
  at least 1, and it is at most \<open>len(candidate) - n + 2\<close>; the denominator
  \<open>len(candidate) + D\<close> is at least \<open>len(candidate) + 1\<close>.
\<close>

theorem modified_precision_bounds:
  assumes "1 \<le> n" and "n \<le> length candidate" and "references \<noteq> []"
    and "enumerates (it (ngrams candidate n)) (ngrams candidate n)"
  shows "\<exists>count_w count_max p.
           modified_precision it candidate references n = Inr p
           \<and> p = real (min count_w count_max)
                 / real (length candidate + card (set (ngrams candidate n)))
           \<and> 2 \<le> count_w \<and> 1 \<le> count_max
           \<and> 1 \<le> min count_w count_max
           \<and> min count_w count_max \<le> length candidate - n + 2
           \<and> length candidate + 1 \<le> length candidate + card (set (ngrams candidate n))
           \<and> 0 < p \<and> p \<le> 1"
proof -
  let ?cn = "ngrams candidate n"
  let ?w = "last (it ?cn)"
  let ?cw = "count_list ?cn ?w + 1"
  let ?cm = "reference_loop ?w references n 0"
  let ?D = "card (set ?cn)"
  let ?p = "real (min ?cw ?cm) / real (length candidate + ?D)"
  from assms(2) have ne: "?cn \<noteq> []" by (simp add: ngrams_empty_iff)
  have val: "modified_precision it candidate references n = Inr ?p"
    using assms(4) ne by (rule modified_precision_last)
  from assms(4) ne have "?w \<in> set ?cn" by (rule enumerates_last)
  then have cw2: "2 \<le> ?cw" using count_list_ge_1 [of ?w ?cn] by simp
  have cm1: "1 \<le> ?cm" using assms(3) by (rule reference_loop_ge_1)
  from cw2 cm1 have lo: "1 \<le> min ?cw ?cm" by simp
  have "count_list ?cn ?w \<le> length ?cn" by (rule count_le_length)
  with assms(1,2) have "?cw \<le> length candidate - n + 2"
    by (simp add: length_ngrams)
  then have up: "min ?cw ?cm \<le> length candidate - n + 2"
    by (rule min.coboundedI1)
  from ne have D1: "1 \<le> ?D" by (simp add: Suc_le_eq card_gt_0_iff)
  from up assms(1,2) D1 have "min ?cw ?cm \<le> length candidate + ?D" by linarith
  then have le1: "?p \<le> 1" using D1 by (simp add: divide_le_eq_1)
  from lo D1 have pos: "0 < ?p" by simp
  from D1 have den: "length candidate + 1 \<le> length candidate + ?D" by simp
  show ?thesis
    apply (rule exI [of _ ?cw])
    apply (rule exI [of _ ?cm])
    apply (rule exI [of _ ?p])
    apply (intro conjI)
    apply (rule val)
    apply (rule refl)
    apply (rule cw2)
    apply (rule cm1)
    apply (rule lo)
    apply (rule up)
    apply (rule den)
    apply (rule pos)
    apply (rule le1)
    done
qed

theorem modified_precision_bounds_witness:
  "1 \<le> (2::nat) \<and> (2::nat) \<le> length [''x'', ''y'', ''x'', ''y'']
   \<and> [[''y'', ''x''], [''x'', ''y'', ''z'']] \<noteq> []
   \<and> enumerates (remdups (ngrams [''x'', ''y'', ''x'', ''y''] 2))
         (ngrams [''x'', ''y'', ''x'', ''y''] 2)
   \<and> (\<exists>p. modified_precision remdups [''x'', ''y'', ''x'', ''y'']
              [[''y'', ''x''], [''x'', ''y'', ''z'']] 2 = Inr p \<and> 0 < p \<and> p \<le> 1)"
proof -
  let ?c = "[''x'', ''y'', ''x'', ''y'']"
  let ?rs = "[[''y'', ''x''], [''x'', ''y'', ''z'']]"
  have h1: "1 \<le> (2::nat)" by simp
  have h2: "(2::nat) \<le> length ?c" by simp
  have h3: "?rs \<noteq> []" by simp
  have h4: "enumerates (remdups (ngrams ?c 2)) (ngrams ?c 2)"
    by (simp add: enumerates_def)
  from modified_precision_bounds [of 2 ?c ?rs remdups, OF h1 h2 h3 h4]
  have "\<exists>p. modified_precision remdups ?c ?rs 2 = Inr p \<and> 0 < p \<and> p \<le> 1"
    by blast
  with h1 h2 h3 h4 show ?thesis by blast
qed

subsection \<open>The value of \<open>compute\<close>\<close>



subsection \<open>Case of the tokens\<close>





subsection \<open>A candidate scored against itself\<close>

text \<open>
  C2 says that \<open>compute(A, [A], weights)\<close> is about 1 for weights that sum
  to 1. The code gives \<open>1/2\<close> for \<open>A = ['a', 'b']\<close> and \<open>weights = [1]\<close>,
  in either order of the iteration over the two distinct unigrams: the
  brevity penalty is 1, but the numerator of the precision is the clipped
  count \<open>min(2, 2)\<close> of the last unigram alone, over the denominator
  \<open>2 + 2\<close>.
\<close>

theorem self_match_below_one:
  "compute remdups [''a'', ''b''] [[''a'', ''b'']] [1] = Inr (1 / 2)
   \<and> compute (\<lambda>xs. rev (remdups xs)) [''a'', ''b''] [[''a'', ''b'']] [1] = Inr (1 / 2)"
proof -
  have low: "lower ''a'' = ''a''" "lower ''b'' = ''b''"
    by code_simp+
  have bp: "brevity_penalty [''a'', ''b''] [[''a'', ''b'']] = Inr 1"
    by (simp add: brevity_penalty_def)
  have p1: "modified_precision remdups [''a'', ''b''] [[''a'', ''b'']] (Suc 0) = Inr (1 / 2)"
    by (simp add: modified_precision_def ngrams_Nil ngrams_Cons Let_def true_div_def)
  have p2: "modified_precision (\<lambda>xs. rev (remdups xs)) [''a'', ''b''] [[''a'', ''b'']] (Suc 0)
              = Inr (1 / 2)"
    by (simp add: modified_precision_def ngrams_Nil ngrams_Cons Let_def true_div_def)
  have lg: "math_log (1 / 2) = Inr (ln (1 / 2))" by (simp add: math_log_def)
  have ex: "exp (ln (1 / 2 :: real)) = 1 / 2" by (rule exp_ln) simp
  show ?thesis
    by (simp add: compute_def Let_def low bp p1 p2 lg ex)
qed

end
